theory Spec2Isabelle
  imports Complex_Main "HOL-Library.Sublist" "HOL-Library.Word"
begin

section \<open>JavaScript strings\<close>

text \<open>
  A JavaScript string is a sequence of UTF-16 code units. A code unit is modelled as a
  natural number, a string as the list of its code units. \<open>str\<close> turns an ASCII literal
  of the source into that list, \<open>ch\<close> gives the code unit of one ASCII character.
\<close>

type_synonym jsstring = "nat list"

abbreviation ch :: "char \<Rightarrow> nat" where
  "ch c \<equiv> of_char c"

definition str :: "string \<Rightarrow> jsstring" where
  "str cs = map of_char cs"

text \<open>
  \<^verbatim>\<open>String.prototype.toLowerCase\<close>. The letters A to Z go to a to z. Code units outside
  ASCII are left as they are: the case mappings of Unicode beyond ASCII yield the ASCII
  letters i and k only (from U+0130 and U+212A) and change no ASCII code unit, so the
  two \<^verbatim>\<open>includes\<close> tests of \<^verbatim>\<open>processGeminiResponse\<close>, whose needles use neither
  letter, see the same answer.
\<close>

definition toLowerCase_unit :: "nat \<Rightarrow> nat" where
  "toLowerCase_unit c = (if ch CHR ''A'' \<le> c \<and> c \<le> ch CHR ''Z'' then c + 32 else c)"

definition toLowerCase :: "jsstring \<Rightarrow> jsstring" where
  "toLowerCase s = map toLowerCase_unit s"

text \<open>\<^verbatim>\<open>s.includes(needle)\<close>: the needle occurs in \<open>s\<close> as a contiguous run.\<close>

definition js_includes :: "jsstring \<Rightarrow> jsstring \<Rightarrow> bool" where
  "js_includes s needle = sublist needle s"

text \<open>\<^verbatim>\<open>s.startsWith(p)\<close>.\<close>

definition startsWith :: "jsstring \<Rightarrow> jsstring \<Rightarrow> bool" where
  "startsWith s p = prefix p s"

section \<open>JSON values and \<^verbatim>\<open>JSON.parse\<close>\<close>

text \<open>
  The values \<^verbatim>\<open>JSON.parse\<close> can return. A number is kept as the exact decimal value of
  its literal; the rounding to an IEEE double is written out only where the code
  observes it (\<open>truthy\<close> below). An object is the list of its own properties, each key
  once.
\<close>

datatype json =
    JNull
  | JBool bool
  | JNumber rat
  | JString jsstring
  | JArray "json list"
  | JObject "(jsstring \<times> json) list"

text \<open>
  Defining a property of an object under construction: a key that is already there keeps
  its place and takes the new value (of a duplicated key of the text, the last value
  stays); a new key goes to the end.
\<close>

fun CreateDataProperty :: "(jsstring \<times> json) list \<Rightarrow> jsstring \<Rightarrow> json \<Rightarrow> (jsstring \<times> json) list" where
  "CreateDataProperty [] k v = [(k, v)]"
| "CreateDataProperty ((k', v') # ps) k v =
     (if k' = k then (k, v) # ps else (k', v') # CreateDataProperty ps k v)"

subsection \<open>Tokens\<close>

datatype token =
    TLBrace | TRBrace | TLBracket | TRBracket | TColon | TComma
  | TString jsstring | TNumber rat | TTrue | TFalse | TNull

definition is_ws :: "nat \<Rightarrow> bool" where
  "is_ws c = (c = 32 \<or> c = 9 \<or> c = 10 \<or> c = 13)"

definition is_digit :: "nat \<Rightarrow> bool" where
  "is_digit c = (ch CHR ''0'' \<le> c \<and> c \<le> ch CHR ''9'')"

definition hex_value :: "nat \<Rightarrow> nat option" where
  "hex_value c =
     (if ch CHR ''0'' \<le> c \<and> c \<le> ch CHR ''9'' then Some (c - ch CHR ''0'')
      else if ch CHR ''a'' \<le> c \<and> c \<le> ch CHR ''f'' then Some (c - ch CHR ''a'' + 10)
      else if ch CHR ''A'' \<le> c \<and> c \<le> ch CHR ''F'' then Some (c - ch CHR ''A'' + 10)
      else None)"

text \<open>The code unit written by a four-digit \<^verbatim>\<open>\u\<close> escape.\<close>

definition hex4 :: "nat \<Rightarrow> nat \<Rightarrow> nat \<Rightarrow> nat \<Rightarrow> nat option" where
  "hex4 a b c d =
     (case (hex_value a, hex_value b, hex_value c, hex_value d) of
        (Some w, Some x, Some y, Some z) \<Rightarrow> Some (((w * 16 + x) * 16 + y) * 16 + z)
      | _ \<Rightarrow> None)"

text \<open>The code unit written by a one-character escape.\<close>

definition unescape :: "nat \<Rightarrow> nat option" where
  "unescape e =
     (if e = ch CHR 0x22 then Some (ch CHR 0x22)
      else if e = ch CHR 0x5C then Some (ch CHR 0x5C)
      else if e = ch CHR ''/'' then Some (ch CHR ''/'')
      else if e = ch CHR ''b'' then Some 8
      else if e = ch CHR ''f'' then Some 12
      else if e = ch CHR ''n'' then Some 10
      else if e = ch CHR ''r'' then Some 13
      else if e = ch CHR ''t'' then Some 9
      else None)"

definition cons_fst :: "nat \<Rightarrow> (jsstring \<times> jsstring) option \<Rightarrow> (jsstring \<times> jsstring) option" where
  "cons_fst c r = (case r of None \<Rightarrow> None | Some (s, rest) \<Rightarrow> Some (c # s, rest))"

text \<open>
  The body of a string literal, read after its opening quote: the string it denotes and
  the text after the closing quote. A control character (below U+0020), an unknown
  escape and a missing closing quote are errors.
\<close>

fun lex_string :: "jsstring \<Rightarrow> (jsstring \<times> jsstring) option" where
  "lex_string [] = None"
| "lex_string (c # cs) =
     (if c = ch CHR 0x22 then Some ([], cs)
      else if c = ch CHR 0x5C then
        (case cs of
           [] \<Rightarrow> None
         | e # es \<Rightarrow>
             if e = ch CHR ''u'' then
               (case es of
                  h1 # h2 # h3 # h4 # rest \<Rightarrow>
                    (case hex4 h1 h2 h3 h4 of
                       None \<Rightarrow> None
                     | Some u \<Rightarrow> cons_fst u (lex_string rest))
                | _ \<Rightarrow> None)
             else
               (case unescape e of
                  None \<Rightarrow> None
                | Some u \<Rightarrow> cons_fst u (lex_string es)))
      else if c < 32 then None
      else cons_fst c (lex_string cs))"

text \<open>The number a run of decimal digits denotes.\<close>

definition digits_value :: "jsstring \<Rightarrow> nat" where
  "digits_value ds = foldl (\<lambda>a d. 10 * a + (d - ch CHR ''0'')) 0 ds"

text \<open>\<open>m * 10 ^ e\<close> for an exponent of either sign.\<close>

definition scale10 :: "rat \<Rightarrow> int \<Rightarrow> rat" where
  "scale10 m e = (if 0 \<le> e then m * 10 ^ nat e else m / 10 ^ nat (- e))"

text \<open>
  The parts of a number literal, each read at the head of the text and returned with the
  text after it: the integer part (at least one digit, no leading zero unless it is the
  single digit 0), the optional fraction (a point and at least one digit), the optional
  exponent (e or E, an optional sign, at least one digit).
\<close>

definition lex_int :: "jsstring \<Rightarrow> (jsstring \<times> jsstring) option" where
  "lex_int s =
     (let ip = takeWhile is_digit s
      in if ip = [] \<or> (1 < length ip \<and> hd ip = ch CHR ''0'') then None
         else Some (ip, dropWhile is_digit s))"

definition lex_frac :: "jsstring \<Rightarrow> (jsstring \<times> jsstring) option" where
  "lex_frac s =
     (case s of
        [] \<Rightarrow> Some ([], s)
      | c # r \<Rightarrow>
          if c = ch CHR ''.'' then
            (if takeWhile is_digit r = [] then None
             else Some (takeWhile is_digit r, dropWhile is_digit r))
          else Some ([], s))"

definition lex_exp :: "jsstring \<Rightarrow> (int \<times> jsstring) option" where
  "lex_exp s =
     (case s of
        [] \<Rightarrow> Some (0, s)
      | c # r \<Rightarrow>
          if c = ch CHR ''e'' \<or> c = ch CHR ''E'' then
            (let neg = (r \<noteq> [] \<and> hd r = ch CHR ''-'');
                 r' = (if r \<noteq> [] \<and> (hd r = ch CHR ''+'' \<or> hd r = ch CHR ''-'') then tl r else r);
                 ep = takeWhile is_digit r'
             in if ep = [] then None
                else Some (if neg then - int (digits_value ep) else int (digits_value ep),
                           dropWhile is_digit r'))
          else Some (0, s))"

text \<open>
  A number literal at the head of the text: an optional minus sign, then the three parts.
  The result is the value the literal denotes and the text after the literal.
\<close>

definition lex_number :: "jsstring \<Rightarrow> (rat \<times> jsstring) option" where
  "lex_number s =
     (let neg = (s \<noteq> [] \<and> hd s = ch CHR ''-'');
          s1 = (if neg then tl s else s)
      in case lex_int s1 of
           None \<Rightarrow> None
         | Some (ip, s2) \<Rightarrow>
             (case lex_frac s2 of
                None \<Rightarrow> None
              | Some (fp, s3) \<Rightarrow>
                  (case lex_exp s3 of
                     None \<Rightarrow> None
                   | Some (e, s4) \<Rightarrow>
                       let m = of_nat (digits_value (ip @ fp))
                       in Some (scale10 (if neg then - m else m) (e - int (length fp)), s4))))"

text \<open>Each literal consumes text: what is left is shorter.\<close>

lemma cons_fst_Some: "cons_fst c r = Some (s, rest) \<Longrightarrow> \<exists>s'. r = Some (s', rest)"
  by (auto simp: cons_fst_def split: option.splits)

lemma lex_string_shorter: "lex_string cs = Some (s, rest) \<Longrightarrow> length rest < length cs"
proof (induction cs arbitrary: s rule: lex_string.induct)
  case 1
  then show ?case by simp
next
  case (2 c cs)
  show ?case
  proof (cases "c = ch CHR 0x22")
    case True
    with "2.prems" show ?thesis by simp
  next
    case q: False
    show ?thesis
    proof (cases "c = ch CHR 0x5C")
      case False
      with q "2.prems" obtain s' where "c \<ge> 32" "lex_string cs = Some (s', rest)"
        by (auto split: if_splits dest!: cons_fst_Some)
      with "2.IH"(3) [of s'] q False show ?thesis by simp
    next
      case b: True
      show ?thesis
      proof (cases cs)
        case Nil
        with b q "2.prems" show ?thesis by simp
      next
        case (Cons e es)
        show ?thesis
        proof (cases "e = ch CHR ''u''")
          case False
          with b q Cons "2.prems" obtain u s' where
            "unescape e = Some u" "lex_string es = Some (s', rest)"
            by (auto split: option.splits dest!: cons_fst_Some)
          with "2.IH"(2) [of e es u s'] q b Cons False show ?thesis by simp
        next
          case True
          with b q Cons "2.prems" obtain h1 h2 h3 h4 r u s' where
            es: "es = h1 # h2 # h3 # h4 # r" and "hex4 h1 h2 h3 h4 = Some u"
            "lex_string r = Some (s', rest)"
            by (auto split: option.splits list.splits dest!: cons_fst_Some)
          with "2.IH"(1) [of e es h1 "h2 # h3 # h4 # r" h2 "h3 # h4 # r" h3 "h4 # r" h4 r u s']
            q b Cons True show ?thesis by simp
        qed
      qed
    qed
  qed
qed

lemma lex_int_shorter: "lex_int s = Some (ip, rest) \<Longrightarrow> length rest < length s"
proof -
  assume a: "lex_int s = Some (ip, rest)"
  then have ip: "takeWhile is_digit s \<noteq> []" and r: "rest = dropWhile is_digit s"
    by (auto simp: lex_int_def Let_def split: if_splits)
  have "length (takeWhile is_digit s) + length (dropWhile is_digit s) = length s"
    by (metis length_append takeWhile_dropWhile_id)
  with ip r show ?thesis by (cases "takeWhile is_digit s") auto
qed

lemma lex_frac_shorter: "lex_frac s = Some (fp, rest) \<Longrightarrow> length rest \<le> length s"
  using length_dropWhile_le [of is_digit "tl s"]
  by (auto simp: lex_frac_def split: list.splits if_splits)

lemma lex_exp_shorter: "lex_exp s = Some (e, rest) \<Longrightarrow> length rest \<le> length s"
proof (cases s)
  case Nil
  assume "lex_exp s = Some (e, rest)"
  with Nil show ?thesis by (simp add: lex_exp_def)
next
  case (Cons c r)
  assume a: "lex_exp s = Some (e, rest)"
  let ?r' = "if r \<noteq> [] \<and> (hd r = ch CHR ''+'' \<or> hd r = ch CHR ''-'') then tl r else r"
  have "rest = s \<or> rest = dropWhile is_digit ?r'"
    using a Cons by (auto simp: lex_exp_def Let_def split: if_splits)
  moreover have "length (dropWhile is_digit ?r') \<le> length ?r'"
    by (rule length_dropWhile_le)
  moreover have "length ?r' \<le> length r" by simp
  ultimately show ?thesis using Cons by auto
qed

lemma lex_number_shorter: "lex_number s = Some (q, rest) \<Longrightarrow> length rest < length s"
proof -
  assume a: "lex_number s = Some (q, rest)"
  let ?s1 = "if s \<noteq> [] \<and> hd s = ch CHR ''-'' then tl s else s"
  from a obtain ip s2 fp s3 e where
    1: "lex_int ?s1 = Some (ip, s2)" and 2: "lex_frac s2 = Some (fp, s3)"
    and 3: "lex_exp s3 = Some (e, rest)"
    by (auto simp: lex_number_def Let_def split: option.splits)
  have "length ?s1 \<le> length s" by simp
  with lex_int_shorter [OF 1] lex_frac_shorter [OF 2] lex_exp_shorter [OF 3]
  show ?thesis by linarith
qed

text \<open>
  The tokens of a JSON text, or \<open>None\<close> where the text has a character that starts no
  token or a malformed literal. White space (space, tab, line feed, carriage return) may
  stand between tokens.
\<close>

definition cons_tok :: "token \<Rightarrow> token list option \<Rightarrow> token list option" where
  "cons_tok t r = (case r of None \<Rightarrow> None | Some ts \<Rightarrow> Some (t # ts))"

function lexer :: "jsstring \<Rightarrow> token list option" where
  "lexer [] = Some []"
| "lexer (c # cs) =
     (if is_ws c then lexer cs
      else if c = ch CHR ''{'' then cons_tok TLBrace (lexer cs)
      else if c = ch CHR ''}'' then cons_tok TRBrace (lexer cs)
      else if c = ch CHR ''['' then cons_tok TLBracket (lexer cs)
      else if c = ch CHR '']'' then cons_tok TRBracket (lexer cs)
      else if c = ch CHR '':'' then cons_tok TColon (lexer cs)
      else if c = ch CHR '','' then cons_tok TComma (lexer cs)
      else if c = ch CHR 0x22 then
        (case lex_string cs of
           None \<Rightarrow> None
         | Some (s, rest) \<Rightarrow> cons_tok (TString s) (lexer rest))
      else if c = ch CHR ''-'' \<or> is_digit c then
        (case lex_number (c # cs) of
           None \<Rightarrow> None
         | Some (q, rest) \<Rightarrow> cons_tok (TNumber q) (lexer rest))
      else if prefix (str ''true'') (c # cs) then cons_tok TTrue (lexer (drop 3 cs))
      else if prefix (str ''false'') (c # cs) then cons_tok TFalse (lexer (drop 4 cs))
      else if prefix (str ''null'') (c # cs) then cons_tok TNull (lexer (drop 3 cs))
      else None)"
  by pat_completeness auto

termination lexer
  by (relation "measure length") (auto dest: lex_string_shorter lex_number_shorter)

subsection \<open>Grammar\<close>

text \<open>
  The parser reads the tokens from left to right and keeps the containers that are still
  open on a stack: an array with the elements read so far, an object with the members
  read so far and the key whose value is being read.
\<close>

datatype frame =
    FArray "json list"
  | FObject "(jsstring \<times> json) list" jsstring

text \<open>
  What may come next:
  \<^item> \<open>PValue\<close>: a value (at the start, after a colon, after a comma in an array);
  \<^item> \<open>PFirstElem\<close>: just after \<^verbatim>\<open>[\<close>, a value or \<^verbatim>\<open>]\<close>;
  \<^item> \<open>PFirstKey\<close>: just after \<^verbatim>\<open>{\<close>, a key or \<^verbatim>\<open>}\<close>;
  \<^item> \<open>PKey\<close>: after a comma in an object, a key;
  \<^item> \<open>PColon\<close>: after a key, the colon;
  \<^item> \<open>PAfter\<close>: a value is complete; inside an array a comma or \<^verbatim>\<open>]\<close>, inside an
    object a comma or \<^verbatim>\<open>}\<close>, at the top nothing.
\<close>

datatype pstate =
    PValue "frame list"
  | PFirstElem "frame list"
  | PFirstKey "frame list"
  | PKey "(jsstring \<times> json) list" "frame list"
  | PColon "(jsstring \<times> json) list" jsstring "frame list"
  | PAfter json "frame list"

fun value_start :: "token \<Rightarrow> frame list \<Rightarrow> pstate option" where
  "value_start TLBrace st = Some (PFirstKey st)"
| "value_start TLBracket st = Some (PFirstElem st)"
| "value_start (TString s) st = Some (PAfter (JString s) st)"
| "value_start (TNumber q) st = Some (PAfter (JNumber q) st)"
| "value_start TTrue st = Some (PAfter (JBool True) st)"
| "value_start TFalse st = Some (PAfter (JBool False) st)"
| "value_start TNull st = Some (PAfter JNull st)"
| "value_start _ st = None"

fun pstep :: "pstate \<Rightarrow> token \<Rightarrow> pstate option" where
  "pstep (PValue st) t = value_start t st"
| "pstep (PFirstElem st) t =
     (if t = TRBracket then Some (PAfter (JArray []) st) else value_start t (FArray [] # st))"
| "pstep (PFirstKey st) t =
     (case t of
        TRBrace \<Rightarrow> Some (PAfter (JObject []) st)
      | TString k \<Rightarrow> Some (PColon [] k st)
      | _ \<Rightarrow> None)"
| "pstep (PKey ps st) t = (case t of TString k \<Rightarrow> Some (PColon ps k st) | _ \<Rightarrow> None)"
| "pstep (PColon ps k st) t = (case t of TColon \<Rightarrow> Some (PValue (FObject ps k # st)) | _ \<Rightarrow> None)"
| "pstep (PAfter v []) t = None"
| "pstep (PAfter v (FArray es # st)) t =
     (case t of
        TComma \<Rightarrow> Some (PValue (FArray (es @ [v]) # st))
      | TRBracket \<Rightarrow> Some (PAfter (JArray (es @ [v])) st)
      | _ \<Rightarrow> None)"
| "pstep (PAfter v (FObject ps k # st)) t =
     (case t of
        TComma \<Rightarrow> Some (PKey (CreateDataProperty ps k v) st)
      | TRBrace \<Rightarrow> Some (PAfter (JObject (CreateDataProperty ps k v)) st)
      | _ \<Rightarrow> None)"

fun prun :: "pstate \<Rightarrow> token list \<Rightarrow> pstate option" where
  "prun s [] = Some s"
| "prun s (t # ts) = (case pstep s t of None \<Rightarrow> None | Some s' \<Rightarrow> prun s' ts)"

subsection \<open>Exceptions\<close>

text \<open>
  What the code throws and catches: an \<^verbatim>\<open>Error\<close> made by the code itself, or the
  \<^verbatim>\<open>SyntaxError\<close> of \<^verbatim>\<open>JSON.parse\<close>. Both carry a message.
\<close>

datatype exn = Error (message: jsstring) | SyntaxError (message: jsstring)

text \<open>
  The message of the \<^verbatim>\<open>SyntaxError\<close> is the engine's own text (for instance
  \<^verbatim>\<open>Unexpected token x in JSON at position 1\<close>, \<^verbatim>\<open>JSON.parse: unexpected character\<close>,
  \<^verbatim>\<open>JSON Parse error: Unexpected identifier\<close>); the code looks only for the word
  \<^verbatim>\<open>JSON\<close> in it, which every engine's text has.
\<close>

definition JSON_SyntaxError :: exn where
  "JSON_SyntaxError = SyntaxError (str ''Unexpected token in JSON'')"

definition JSON_parse :: "jsstring \<Rightarrow> exn + json" where
  "JSON_parse text =
     (case lexer text of
        None \<Rightarrow> Inl JSON_SyntaxError
      | Some ts \<Rightarrow>
          (case prun (PValue []) ts of
             Some (PAfter v []) \<Rightarrow> Inr v
           | _ \<Rightarrow> Inl JSON_SyntaxError))"

section \<open>The reply of the model: \<^verbatim>\<open>processGeminiResponse\<close>\<close>

text \<open>
  \<^verbatim>\<open>responseText.match(/\{[\s\S]*\}/)\<close>, the matched text (\<^verbatim>\<open>jsonMatch[0]\<close>) or
  \<open>None\<close> for \<^verbatim>\<open>null\<close>. The class \<^verbatim>\<open>[\s\S]\<close> is every code unit and the star is
  greedy, so the match runs from the first \<^verbatim>\<open>{\<close> to the last \<^verbatim>\<open>}\<close> after it; with
  no \<^verbatim>\<open>}\<close> after the first \<^verbatim>\<open>{\<close> there is none after a later one either.
\<close>

definition jsonRegex_match :: "jsstring \<Rightarrow> jsstring option" where
  "jsonRegex_match s =
     (let from_open = dropWhile (\<lambda>c. c \<noteq> ch CHR ''{'') s
      in if from_open = [] then None
         else if ch CHR ''}'' \<in> set (tl from_open) then
           Some (ch CHR ''{'' # rev (dropWhile (\<lambda>c. c \<noteq> ch CHR ''}'') (rev (tl from_open))))
         else None)"

text \<open>
  A number literal becomes the double nearest to its value, ties to even. The least
  positive double is \<open>2 ^ -1074\<close>, so the literals that become zero are those of
  magnitude at most \<open>2 ^ -1075\<close>.
\<close>

definition double_is_zero :: "rat \<Rightarrow> bool" where
  "double_is_zero q = (\<bar>q\<bar> \<le> 1 / 2 ^ 1075)"

text \<open>
  Truthiness, as \<^verbatim>\<open>!x\<close> tests it: \<^verbatim>\<open>null\<close>, \<^verbatim>\<open>false\<close>, zero and the empty string
  are falsy, every array and every object is truthy. \<^verbatim>\<open>undefined\<close>, the value of a
  property that is not there, is falsy.
\<close>

fun truthy :: "json \<Rightarrow> bool" where
  "truthy JNull = False"
| "truthy (JBool b) = b"
| "truthy (JNumber q) = (\<not> double_is_zero q)"
| "truthy (JString s) = (s \<noteq> [])"
| "truthy (JArray es) = True"
| "truthy (JObject ps) = True"

definition truthy_opt :: "json option \<Rightarrow> bool" where
  "truthy_opt v = (case v of None \<Rightarrow> False | Some x \<Rightarrow> truthy x)"

text \<open>
  Reading the property \<open>k\<close> of a value that is not \<^verbatim>\<open>null\<close>; \<open>None\<close> is
  \<^verbatim>\<open>undefined\<close>. The code reads \<^verbatim>\<open>score\<close> and \<^verbatim>\<open>corners\<close> only, which no prototype
  defines: they are found among the own properties of an object or not at all.
\<close>

fun getProp :: "json \<Rightarrow> jsstring \<Rightarrow> json option" where
  "getProp (JObject ps) k = map_of ps k"
| "getProp _ k = None"

definition msg_no_samosa :: jsstring where
  "msg_no_samosa = str ''No samosa detected in the image. Please upload a clear image of a samosa.''"

definition msg_no_json :: jsstring where
  "msg_no_json = str ''Could not get a proper analysis. Please try with a clearer image of a samosa.''"

definition msg_invalid_format :: jsstring where
  "msg_invalid_format = str ''Invalid analysis format. Please try again with a different image.''"

definition msg_json_error :: jsstring where
  "msg_json_error = str ''Could not analyze the image properly. Please try with a different image.''"

text \<open>The body of the \<^verbatim>\<open>try\<close> block.\<close>

definition processGeminiResponse_try :: "jsstring \<Rightarrow> exn + json" where
  "processGeminiResponse_try responseText =
     (if js_includes (toLowerCase responseText) (str ''sorry'') \<or>
         js_includes (toLowerCase responseText) (str ''unable to'')
      then Inl (Error msg_no_samosa)
      else
        (case jsonRegex_match responseText of
           None \<Rightarrow> Inl (Error msg_no_json)
         | Some jsonMatch \<Rightarrow>
             (case JSON_parse jsonMatch of
                Inl e \<Rightarrow> Inl e
              | Inr analysisData \<Rightarrow>
                  if \<not> truthy analysisData \<or>
                     \<not> truthy_opt (getProp analysisData (str ''score'')) \<or>
                     \<not> truthy_opt (getProp analysisData (str ''corners''))
                  then Inl (Error msg_invalid_format)
                  else Inr analysisData)))"

text \<open>
  The \<^verbatim>\<open>catch\<close> block: an error whose message has the word \<^verbatim>\<open>JSON\<close> is replaced,
  every other error is thrown again as it is.
\<close>

definition processGeminiResponse_catch :: "exn \<Rightarrow> exn" where
  "processGeminiResponse_catch error =
     (if js_includes (message error) (str ''JSON'') then Error msg_json_error else error)"

definition processGeminiResponse :: "jsstring \<Rightarrow> exn + json" where
  "processGeminiResponse responseText =
     (case processGeminiResponse_try responseText of
        Inl error \<Rightarrow> Inl (processGeminiResponse_catch error)
      | Inr analysisData \<Rightarrow> Inr analysisData)"

section \<open>The uploaded file: \<^verbatim>\<open>getImageData\<close>\<close>

type_synonym byte = "8 word"

text \<open>
  A \<^verbatim>\<open>File\<close>: its declared media type (\<^verbatim>\<open>file.type\<close>), its contents, and whether the
  \<^verbatim>\<open>FileReader\<close> can read it (if not, the reader fires \<^verbatim>\<open>error\<close>).
\<close>

record jsfile =
  file_type :: jsstring
  file_bytes :: "byte list"
  file_readable :: bool

text \<open>The character of the base64 alphabet for a six-bit value.\<close>

definition base64_char :: "nat \<Rightarrow> nat" where
  "base64_char i =
     (if i < 26 then ch CHR ''A'' + i
      else if i < 52 then ch CHR ''a'' + (i - 26)
      else if i < 62 then ch CHR ''0'' + (i - 52)
      else if i = 62 then ch CHR ''+''
      else ch CHR ''/'')"

text \<open>
  Base64 as the browser writes it into a data URL: three bytes give four characters, a
  last group of one or two bytes is padded with \<^verbatim>\<open>=\<close>.
\<close>

fun base64_encode :: "byte list \<Rightarrow> jsstring" where
  "base64_encode [] = []"
| "base64_encode [a] =
     [base64_char (unat a div 4), base64_char (unat a mod 4 * 16), ch CHR ''='', ch CHR ''='']"
| "base64_encode [a, b] =
     [base64_char (unat a div 4), base64_char (unat a mod 4 * 16 + unat b div 16),
      base64_char (unat b mod 16 * 4), ch CHR ''='']"
| "base64_encode (a # b # c # rest) =
     [base64_char (unat a div 4), base64_char (unat a mod 4 * 16 + unat b div 16),
      base64_char (unat b mod 16 * 4 + unat c div 64), base64_char (unat c mod 64)]
     @ base64_encode rest"

text \<open>
  \<^verbatim>\<open>reader.result\<close> after \<^verbatim>\<open>readAsDataURL\<close> has read the file. (For an empty file
  some browsers write \<^verbatim>\<open>data:\<close> alone; the piece after the first comma is missing or
  empty either way, and \<^verbatim>\<open>getImageData\<close> rejects both.)
\<close>

definition readAsDataURL :: "jsfile \<Rightarrow> jsstring" where
  "readAsDataURL f = str ''data:'' @ file_type f @ str '';base64,'' @ base64_encode (file_bytes f)"

text \<open>\<^verbatim>\<open>s.split(sep)\<close> for a separator of one character: the pieces between the separators.\<close>

fun split_js :: "nat \<Rightarrow> jsstring \<Rightarrow> jsstring list" where
  "split_js sep [] = [[]]"
| "split_js sep (c # cs) =
     (if c = sep then [] # split_js sep cs
      else (case split_js sep cs of [] \<Rightarrow> [[c]] | p # ps \<Rightarrow> (c # p) # ps))"

text \<open>\<^verbatim>\<open>xs[i]\<close>: \<^verbatim>\<open>undefined\<close> (\<open>None\<close>) beyond the end.\<close>

definition index_js :: "'a list \<Rightarrow> nat \<Rightarrow> 'a option" where
  "index_js xs i = (if i < length xs then Some (xs ! i) else None)"

definition msg_invalid_file :: jsstring where
  "msg_invalid_file = str ''Invalid file type. Please upload an image file.''"

definition msg_read_error :: jsstring where
  "msg_read_error = str ''Error reading file''"

definition msg_no_base64 :: jsstring where
  "msg_no_base64 = str ''Failed to convert image to base64''"

text \<open>
  \<^verbatim>\<open>getImageData\<close>: the value the promise resolves to, or the error it rejects with. An
  absent file is \<open>None\<close>. When the file cannot be read the \<^verbatim>\<open>error\<close> event comes
  before \<^verbatim>\<open>loadend\<close>, so the promise is rejected by \<^verbatim>\<open>onerror\<close>.
\<close>

definition getImageData :: "jsfile option \<Rightarrow> exn + jsstring" where
  "getImageData file0 =
     (case file0 of
        None \<Rightarrow> Inl (Error msg_invalid_file)
      | Some f \<Rightarrow>
          if \<not> startsWith (file_type f) (str ''image/'') then Inl (Error msg_invalid_file)
          else if \<not> file_readable f then Inl (Error msg_read_error)
          else
            (case index_js (split_js (ch CHR '','') (readAsDataURL f)) 1 of
               None \<Rightarrow> Inl (Error msg_no_base64)
             | Some base64Data \<Rightarrow>
                 if base64Data = [] then Inl (Error msg_no_base64) else Inr base64Data))"

text \<open>
  Modelled from the spec: the repository encodes only; the "corresponding decode" of the
  round-trip law is the standard base64 decoding, \<open>None\<close> on text that is not base64.
\<close>

definition base64_index :: "nat \<Rightarrow> nat option" where
  "base64_index c =
     (if ch CHR ''A'' \<le> c \<and> c \<le> ch CHR ''Z'' then Some (c - ch CHR ''A'')
      else if ch CHR ''a'' \<le> c \<and> c \<le> ch CHR ''z'' then Some (c - ch CHR ''a'' + 26)
      else if ch CHR ''0'' \<le> c \<and> c \<le> ch CHR ''9'' then Some (c - ch CHR ''0'' + 52)
      else if c = ch CHR ''+'' then Some 62
      else if c = ch CHR ''/'' then Some 63
      else None)"

fun base64_decode :: "jsstring \<Rightarrow> byte list option" where
  "base64_decode [] = Some []"
| "base64_decode (c1 # c2 # c3 # c4 # rest) =
     (case (base64_index c1, base64_index c2) of
        (Some i1, Some i2) \<Rightarrow>
          if c3 = ch CHR ''='' \<and> c4 = ch CHR ''='' \<and> rest = [] then
            Some [of_nat (i1 * 4 + i2 div 16)]
          else
            (case base64_index c3 of
               None \<Rightarrow> None
             | Some i3 \<Rightarrow>
                 if c4 = ch CHR ''='' \<and> rest = [] then
                   Some [of_nat (i1 * 4 + i2 div 16), of_nat (i2 mod 16 * 16 + i3 div 4)]
                 else
                   (case (base64_index c4, base64_decode rest) of
                      (Some i4, Some bs) \<Rightarrow>
                        Some (of_nat (i1 * 4 + i2 div 16) # of_nat (i2 mod 16 * 16 + i3 div 4)
                              # of_nat (i3 mod 4 * 64 + i4) # bs)
                    | _ \<Rightarrow> None))
      | _ \<Rightarrow> None)"
| "base64_decode _ = None"

section \<open>The component: \<^verbatim>\<open>SamosaSharpnessAnalyzer\<close>\<close>

datatype step = Upload | Analyzing | Result

text \<open>
  The five state variables of the component (\<^verbatim>\<open>null\<close> is \<open>None\<close>), and two records of
  what the session did to the outside: the messages shown with \<^verbatim>\<open>alert\<close> and the image
  payloads sent to the model with \<^verbatim>\<open>generateContent\<close>, each in order.
\<close>

record state =
  image_url :: "jsstring option"
  step :: step
  currentMessageIndex :: nat
  score :: "json option"
  analysis :: "json option"
  alerts :: "jsstring list"
  requests :: "jsstring list"

text \<open>
  How a call of \<^verbatim>\<open>generateContent\<close> ends, for a call that ends: it throws (also when
  reading the response throws), it returns nothing, or it returns a response with a text.
\<close>

datatype api_outcome = Throws exn | NoResult | ResponseText jsstring

text \<open>
  What the session does not decide: the URL the browser makes for the file, the answer of
  the model to a payload, and how often the two-second timer fires while the analysis
  runs.
\<close>

record env =
  createObjectURL :: "jsfile \<Rightarrow> jsstring"
  generateContent :: "jsstring \<Rightarrow> api_outcome"
  ticks :: nat

definition msg_no_response :: jsstring where
  "msg_no_response = str ''No response from Gemini API''"

definition msg_fallback :: jsstring where
  "msg_fallback = str ''Error processing image. Please try again with a different image.''"

text \<open>
  \<^verbatim>\<open>analyzeImage\<close>: the request is sent, the reply is validated, and on success the score
  and the record are stored. The \<^verbatim>\<open>catch\<close> block throws the error again as it is.
\<close>

definition analyzeImage :: "env \<Rightarrow> jsstring \<Rightarrow> state \<Rightarrow> (exn + json) \<times> state" where
  "analyzeImage w imageData s =
     (let s1 = s\<lparr>requests := requests s @ [imageData]\<rparr>
      in case generateContent w imageData of
           Throws e \<Rightarrow> (Inl e, s1)
         | NoResult \<Rightarrow> (Inl (Error msg_no_response), s1)
         | ResponseText responseText \<Rightarrow>
             (case processGeminiResponse responseText of
                Inl e \<Rightarrow> (Inl e, s1)
              | Inr analysisData \<Rightarrow>
                  (Inr analysisData,
                   s1\<lparr>score := getProp analysisData (str ''score''),
                      analysis := Some analysisData\<rparr>)))"

text \<open>The \<^verbatim>\<open>catch\<close> block of \<^verbatim>\<open>onImageChange\<close>.\<close>

definition onImageChange_catch :: "exn \<Rightarrow> state \<Rightarrow> state" where
  "onImageChange_catch error s =
     s\<lparr>alerts := alerts s @ [if message error = [] then msg_fallback else message error],
       step := Upload\<rparr>"

text \<open>
  \<^verbatim>\<open>onImageChange\<close>, from the event to the end of the handler: the state when the awaited
  calls have ended. The argument is \<^verbatim>\<open>e.target.files[0]\<close>. While the step is
  \<^verbatim>\<open>analyzing\<close> the timer moves the caption index.
\<close>

definition onImageChange :: "env \<Rightarrow> jsfile option \<Rightarrow> state \<Rightarrow> state" where
  "onImageChange w file0 s =
     (case file0 of
        None \<Rightarrow> s
      | Some f \<Rightarrow>
          (let s1 = s\<lparr>image_url := Some (createObjectURL w f), step := Analyzing,
                      currentMessageIndex := ticks w mod 3, score := None, analysis := None\<rparr>
           in case getImageData (Some f) of
                Inl error \<Rightarrow> onImageChange_catch error s1
              | Inr imageData \<Rightarrow>
                  (case analyzeImage w imageData s1 of
                     (Inl error, s2) \<Rightarrow> onImageChange_catch error s2
                   | (Inr analysisData, s2) \<Rightarrow> s2\<lparr>step := Result\<rparr>)))"

text \<open>The button "Analyze Another Samosa": \<^verbatim>\<open>onClick={() => setStep("upload")}\<close>.\<close>

definition onClick_analyzeAnother :: "state \<Rightarrow> state" where
  "onClick_analyzeAnother s = s\<lparr>step := Upload\<rparr>"

section \<open>A session for the examples\<close>

text \<open>The state of a freshly mounted component: the initial values of \<^verbatim>\<open>useState\<close>.\<close>

definition initial_state :: state where
  "initial_state =
     \<lparr>image_url = None, step = Upload, currentMessageIndex = 0, score = None, analysis = None,
      alerts = [], requests = []\<rparr>"

text \<open>
  Two files, a reply of the model in the format the prompt asks for with the record it
  denotes, a world whose model gives that reply, and a world whose model refuses.
\<close>

definition example_file :: jsfile where
  "example_file = \<lparr>file_type = str ''image/jpeg'', file_bytes = [255, 216, 255], file_readable = True\<rparr>"

definition text_file :: jsfile where
  "text_file = \<lparr>file_type = str ''text/plain'', file_bytes = [104, 105], file_readable = True\<rparr>"

definition example_reply :: jsstring where
  "example_reply = str ''{\"score\": 85, \"corners\": [{\"name\":\"Top\",\"angle\":60,\"comment\":\"Crispy\"}]}''"

definition example_analysis :: json where
  "example_analysis =
     JObject
       [(str ''score'', JNumber 85),
        (str ''corners'',
         JArray [JObject [(str ''name'', JString (str ''Top'')), (str ''angle'', JNumber 60),
                          (str ''comment'', JString (str ''Crispy''))]])]"

definition example_env :: env where
  "example_env =
     \<lparr>createObjectURL = (\<lambda>f. str ''blob:samosa''),
      generateContent = (\<lambda>imageData. ResponseText example_reply),
      ticks = 2\<rparr>"

definition refusing_env :: env where
  "refusing_env =
     \<lparr>createObjectURL = (\<lambda>f. str ''blob:samosa''),
      generateContent = (\<lambda>imageData. ResponseText (str ''Sorry, I am unable to identify a samosa'')),
      ticks = 0\<rparr>"

section \<open>Facts about the strings and the match\<close>

lemma no_JSON_in_msg_no_samosa: "\<not> js_includes msg_no_samosa (str ''JSON'')"
  by code_simp

lemma no_JSON_in_msg_no_json: "\<not> js_includes msg_no_json (str ''JSON'')"
  by code_simp

lemma no_JSON_in_msg_invalid_format: "\<not> js_includes msg_invalid_format (str ''JSON'')"
  by code_simp

lemma JSON_in_SyntaxError: "js_includes (message JSON_SyntaxError) (str ''JSON'')"
  by code_simp

lemma toLowerCase_append: "toLowerCase (xs @ ys) = toLowerCase xs @ toLowerCase ys"
  by (simp add: toLowerCase_def)

lemma js_includes_iff: "js_includes s needle \<longleftrightarrow> (\<exists>pre post. s = pre @ needle @ post)"
  by (auto simp: js_includes_def sublist_def)

lemma JSON_parse_error: "JSON_parse m = Inl e \<Longrightarrow> e = JSON_SyntaxError"
  by (auto simp: JSON_parse_def split: option.splits pstate.splits list.splits)

text \<open>
  The match is \<^verbatim>\<open>null\<close> exactly when no \<^verbatim>\<open>{\<close> of the text has a \<^verbatim>\<open>}\<close> somewhere
  after it.
\<close>

lemma dropWhile_first_open:
  assumes "b \<notin> set a"
  shows "dropWhile (\<lambda>c. c \<noteq> b) (a @ b # r) = b # r"
  using assms by (induction a) auto

lemma jsonRegex_match_no_open:
  "ch CHR ''{'' \<notin> set s \<Longrightarrow> jsonRegex_match s = None"
proof -
  assume "ch CHR ''{'' \<notin> set s"
  then have "dropWhile (\<lambda>c. c \<noteq> ch CHR ''{'') s = []"
    by (induction s) auto
  then show ?thesis by (simp add: jsonRegex_match_def)
qed

lemma jsonRegex_match_first_open:
  assumes "ch CHR ''{'' \<notin> set a"
  shows "jsonRegex_match (a @ ch CHR ''{'' # r) =
           (if ch CHR ''}'' \<in> set r
            then Some (ch CHR ''{'' # rev (dropWhile (\<lambda>c. c \<noteq> ch CHR ''}'') (rev r)))
            else None)"
  using dropWhile_first_open [OF assms, of r]
  by (simp add: jsonRegex_match_def del: of_char_Char)

lemma jsonRegex_match_None_iff:
  "jsonRegex_match s = None \<longleftrightarrow>
     \<not> (\<exists>i j. i < j \<and> j < length s \<and> s ! i = ch CHR ''{'' \<and> s ! j = ch CHR ''}'')"
proof (cases "ch CHR ''{'' \<in> set s")
  case False
  then have "\<And>i. i < length s \<Longrightarrow> s ! i \<noteq> ch CHR ''{''"
    by (metis nth_mem)
  then have "\<not> (\<exists>i j. i < j \<and> j < length s \<and> s ! i = ch CHR ''{'' \<and> s ! j = ch CHR ''}'')"
    by (meson less_trans)
  with jsonRegex_match_no_open [OF False] show ?thesis by simp
next
  case True
  then obtain a r where s: "s = a @ ch CHR ''{'' # r" and a: "ch CHR ''{'' \<notin> set a"
    by (meson split_list_first)
  have m: "jsonRegex_match s = None \<longleftrightarrow> ch CHR ''}'' \<notin> set r"
    unfolding s jsonRegex_match_first_open [OF a] by simp
  have "(\<exists>i j. i < j \<and> j < length s \<and> s ! i = ch CHR ''{'' \<and> s ! j = ch CHR ''}'')
          \<longleftrightarrow> ch CHR ''}'' \<in> set r"
  proof
    assume "\<exists>i j. i < j \<and> j < length s \<and> s ! i = ch CHR ''{'' \<and> s ! j = ch CHR ''}''"
    then obtain i j where ij: "i < j" "j < length s" "s ! i = ch CHR ''{''" "s ! j = ch CHR ''}''"
      by blast
    have "length a \<le> i"
    proof (rule ccontr)
      assume "\<not> length a \<le> i"
      then have "i < length a" by simp
      then have "s ! i \<in> set a" by (simp add: s nth_append)
      with ij(3) a show False by simp
    qed
    with ij(1) have j: "length a < j" by simp
    then have "s ! j = r ! (j - length a - 1)"
      by (simp add: s nth_append nth_Cons')
    moreover have "j - length a - 1 < length r"
      using ij(2) j by (simp add: s)
    ultimately show "ch CHR ''}'' \<in> set r"
      using ij(4) by (metis nth_mem)
  next
    assume "ch CHR ''}'' \<in> set r"
    then obtain k where k: "k < length r" "r ! k = ch CHR ''}''"
      by (metis in_set_conv_nth)
    have "length a < length a + 1 + k" by simp
    moreover have "length a + 1 + k < length s" using k(1) by (simp add: s)
    moreover have "s ! length a = ch CHR ''{''" by (simp add: s)
    moreover have "s ! (length a + 1 + k) = ch CHR ''}''"
      using k(2) by (simp add: s nth_append)
    ultimately show "\<exists>i j. i < j \<and> j < length s \<and> s ! i = ch CHR ''{'' \<and> s ! j = ch CHR ''}''"
      by blast
  qed
  with m show ?thesis by simp
qed

text \<open>The \<^verbatim>\<open>catch\<close> block on each error the \<^verbatim>\<open>try\<close> block can throw.\<close>

lemma catch_no_samosa: "processGeminiResponse_catch (Error msg_no_samosa) = Error msg_no_samosa"
  using no_JSON_in_msg_no_samosa by (simp add: processGeminiResponse_catch_def)

lemma catch_no_json: "processGeminiResponse_catch (Error msg_no_json) = Error msg_no_json"
  using no_JSON_in_msg_no_json by (simp add: processGeminiResponse_catch_def)

lemma catch_invalid_format:
  "processGeminiResponse_catch (Error msg_invalid_format) = Error msg_invalid_format"
  using no_JSON_in_msg_invalid_format by (simp add: processGeminiResponse_catch_def)

lemma catch_SyntaxError: "processGeminiResponse_catch JSON_SyntaxError = Error msg_json_error"
  using JSON_in_SyntaxError by (simp add: processGeminiResponse_catch_def)

lemma jsonRegex_match_Some:
  assumes "jsonRegex_match s = Some m"
  shows "\<exists>pre body post. s = pre @ m @ post \<and> m = ch CHR ''{'' # body @ [ch CHR ''}''] \<and>
           ch CHR ''{'' \<notin> set pre \<and> ch CHR ''}'' \<notin> set post"
proof -
  have "ch CHR ''{'' \<in> set s"
    using assms jsonRegex_match_no_open by fastforce
  then obtain a r where s: "s = a @ ch CHR ''{'' # r" and a: "ch CHR ''{'' \<notin> set a"
    by (meson split_list_first)
  from assms have r: "ch CHR ''}'' \<in> set r"
    and m: "m = ch CHR ''{'' # rev (dropWhile (\<lambda>c. c \<noteq> ch CHR ''}'') (rev r))"
    unfolding s jsonRegex_match_first_open [OF a] by (simp_all split: if_splits)
  from r obtain x y where xy: "r = x @ ch CHR ''}'' # y" and y: "ch CHR ''}'' \<notin> set y"
    by (meson split_list_last)
  have "rev r = rev y @ ch CHR ''}'' # rev x"
    by (simp add: xy)
  moreover have "ch CHR ''}'' \<notin> set (rev y)"
    using y by simp
  ultimately have "dropWhile (\<lambda>c. c \<noteq> ch CHR ''}'') (rev r) = ch CHR ''}'' # rev x"
    using dropWhile_first_open by metis
  with m have "m = ch CHR ''{'' # x @ [ch CHR ''}'']"
    by simp
  moreover from this have "s = a @ m @ y"
    by (simp add: s xy)
  ultimately show ?thesis
    using a y by blast
qed

text \<open>The \<^verbatim>\<open>try\<close> block of a reply that is no refusal.\<close>

lemma try_after_parse:
  assumes "\<not> js_includes (toLowerCase t) (str ''sorry'')"
    and "\<not> js_includes (toLowerCase t) (str ''unable to'')"
    and "jsonRegex_match t = Some m"
  shows "processGeminiResponse_try t =
           (case JSON_parse m of
              Inl e \<Rightarrow> Inl e
            | Inr v \<Rightarrow>
                if \<not> truthy v \<or> \<not> truthy_opt (getProp v (str ''score'')) \<or>
                   \<not> truthy_opt (getProp v (str ''corners''))
                then Inl (Error msg_invalid_format) else Inr v)"
  using assms by (simp add: processGeminiResponse_try_def)

lemma try_no_match:
  assumes "\<not> js_includes (toLowerCase t) (str ''sorry'')"
    and "\<not> js_includes (toLowerCase t) (str ''unable to'')"
    and "jsonRegex_match t = None"
  shows "processGeminiResponse_try t = Inl (Error msg_no_json)"
  using assms by (simp add: processGeminiResponse_try_def)

lemma double_is_zero_0: "double_is_zero 0"
  by (simp add: double_is_zero_def)

section \<open>Facts about base64 and the data URL\<close>

lemma base64_index_char: "i < 64 \<Longrightarrow> base64_index (base64_char i) = Some i"
  by (auto simp: base64_index_def base64_char_def)

lemma base64_char_plain: "i < 64 \<Longrightarrow> base64_char i \<noteq> ch CHR ''='' \<and> base64_char i \<noteq> ch CHR '',''"
  by (auto simp: base64_char_def)

lemma byte_lt: "unat (a::byte) < 256"
  using unsigned_less [of a, where 'a = nat] by simp

lemma sextet_1: "(x div 4) * 4 + (x mod 4 * 16 + y div 16) div 16 = (x::nat)" if "y < 256"
proof -
  have "y div 16 < 16" using that by simp
  then have "(x mod 4 * 16 + y div 16) div 16 = x mod 4" by simp
  then show ?thesis by simp
qed

lemma sextet_2: "(x mod 4 * 16 + y div 16) mod 16 * 16 + (y mod 16 * 4 + z div 64) div 4 = (y::nat)"
  if "y < 256" "z < 256"
proof -
  have "y div 16 < 16" "z div 64 < 4" using that by simp_all
  then have "(x mod 4 * 16 + y div 16) mod 16 = y div 16" "(y mod 16 * 4 + z div 64) div 4 = y mod 16"
    by simp_all
  then show ?thesis by simp
qed

lemma sextet_3: "(y mod 16 * 4 + z div 64) mod 4 * 64 + z mod 64 = (z::nat)" if "z < 256"
proof -
  have "z div 64 < 4" using that by simp
  then have "(y mod 16 * 4 + z div 64) mod 4 = z div 64" by simp
  then show ?thesis by simp
qed

lemma sextet_bounds:
  fixes x y z :: nat
  assumes "x < 256" "y < 256" "z < 256"
  shows "x div 4 < 64" "x mod 4 * 16 + y div 16 < 64" "y mod 16 * 4 + z div 64 < 64" "z mod 64 < 64"
proof -
  show "x div 4 < 64" using assms(1) by simp
  have "x mod 4 < 4" "y div 16 < 16" using assms(2) by simp_all
  then show "x mod 4 * 16 + y div 16 < 64" by linarith
  have "y mod 16 < 16" "z div 64 < 4" using assms(3) by simp_all
  then show "y mod 16 * 4 + z div 64 < 64" by linarith
  show "z mod 64 < 64" by simp
qed

text \<open>Decoding the characters of one group of three bytes.\<close>

lemma decode_group:
  fixes a b c :: byte
  defines "i1 \<equiv> unat a div 4" and "i2 \<equiv> unat a mod 4 * 16 + unat b div 16"
    and "i3 \<equiv> unat b mod 16 * 4 + unat c div 64" and "i4 \<equiv> unat c mod 64"
  shows "base64_index (base64_char i1) = Some i1 \<and> base64_index (base64_char i2) = Some i2 \<and>
    base64_index (base64_char i3) = Some i3 \<and> base64_index (base64_char i4) = Some i4 \<and>
    base64_char i3 \<noteq> ch CHR ''='' \<and> base64_char i4 \<noteq> ch CHR ''='' \<and>
    of_nat (i1 * 4 + i2 div 16) = a \<and> of_nat (i2 mod 16 * 16 + i3 div 4) = b \<and>
    of_nat (i3 mod 4 * 64 + i4) = c"
proof -
  note bd = sextet_bounds [OF byte_lt [of a] byte_lt [of b] byte_lt [of c]]
  have 1: "base64_index (base64_char i1) = Some i1" "base64_index (base64_char i2) = Some i2"
    "base64_index (base64_char i3) = Some i3" "base64_index (base64_char i4) = Some i4"
    unfolding i1_def i2_def i3_def i4_def by (rule base64_index_char, rule bd)+
  have 2: "base64_char i3 \<noteq> ch CHR ''=''" "base64_char i4 \<noteq> ch CHR ''=''"
    unfolding i3_def i4_def using base64_char_plain bd by blast+
  have "i1 * 4 + i2 div 16 = unat a"
    unfolding i1_def i2_def by (rule sextet_1 [OF byte_lt])
  then have 3: "of_nat (i1 * 4 + i2 div 16) = a" by simp
  have "i2 mod 16 * 16 + i3 div 4 = unat b"
    unfolding i2_def i3_def by (rule sextet_2 [OF byte_lt byte_lt])
  then have 4: "of_nat (i2 mod 16 * 16 + i3 div 4) = b" by simp
  have "i3 mod 4 * 64 + i4 = unat c"
    unfolding i3_def i4_def by (rule sextet_3 [OF byte_lt])
  then have 5: "of_nat (i3 mod 4 * 64 + i4) = c" by simp
  from 1 2 3 4 5 show ?thesis by blast
qed

lemma base64_roundtrip: "base64_decode (base64_encode bs) = Some bs"
proof (induction bs rule: base64_encode.induct)
  case 1
  show ?case by simp
next
  case (2 a)
  from decode_group [where a = a and b = 0 and c = 0] show ?case
    by (simp del: of_char_Char)
next
  case (3 a b)
  from decode_group [where a = a and b = b and c = 0] show ?case
    by (simp del: of_char_Char)
next
  case (4 a b c rest)
  from decode_group [where a = a and b = b and c = c] 4 show ?case
    by (simp del: of_char_Char)
qed

lemma split_js_no_sep: "sep \<notin> set xs \<Longrightarrow> split_js sep xs = [xs]"
  by (induction xs) auto

lemma split_js_at_sep: "sep \<notin> set xs \<Longrightarrow> split_js sep (xs @ sep # ys) = xs # split_js sep ys"
  by (induction xs) auto

lemma base64_encode_no_comma: "ch CHR '','' \<notin> set (base64_encode bs)"
proof (induction bs rule: base64_encode.induct)
  case 1
  show ?case by simp
next
  case (2 a)
  from decode_group [where a = a and b = 0 and c = 0] base64_char_plain
    sextet_bounds [OF byte_lt [of a] byte_lt [of 0] byte_lt [of 0]]
  show ?case by simp
next
  case (3 a b)
  from base64_char_plain sextet_bounds [OF byte_lt [of a] byte_lt [of b] byte_lt [of 0]]
  show ?case by simp
next
  case (4 a b c rest)
  from base64_char_plain sextet_bounds [OF byte_lt [of a] byte_lt [of b] byte_lt [of c]] 4
  show ?case by simp
qed

lemma base64_encode_nonempty: "bs \<noteq> [] \<Longrightarrow> base64_encode bs \<noteq> []"
  by (induction bs rule: base64_encode.induct) simp_all

lemma readAsDataURL_split:
  assumes "ch CHR '','' \<notin> set (file_type f)"
  shows "split_js (ch CHR '','') (readAsDataURL f)
           = [str ''data:'' @ file_type f @ str '';base64'', base64_encode (file_bytes f)]"
proof -
  have "readAsDataURL f
          = (str ''data:'' @ file_type f @ str '';base64'') @ ch CHR '','' # base64_encode (file_bytes f)"
    by (simp add: readAsDataURL_def str_def)
  moreover have "ch CHR '','' \<notin> set (str ''data:'' @ file_type f @ str '';base64'')"
    using assms by (simp add: str_def)
  ultimately show ?thesis
    using split_js_at_sep split_js_no_sep [OF base64_encode_no_comma] by metis
qed

lemma getImageData_payload:
  assumes "startsWith (file_type f) (str ''image/'')" and "ch CHR '','' \<notin> set (file_type f)"
    and "file_readable f" and "file_bytes f \<noteq> []"
  shows "getImageData (Some f) = Inr (base64_encode (file_bytes f))"
  using assms base64_encode_nonempty [of "file_bytes f"]
  by (simp add: getImageData_def readAsDataURL_split index_js_def del: of_char_Char)

text \<open>
  An empty file has an empty payload, which \<^verbatim>\<open>getImageData\<close> rejects (the spec's
  EncodingError).
\<close>

lemma empty_file_rejected:
  "getImageData (Some \<lparr>file_type = str ''image/png'', file_bytes = [], file_readable = True\<rparr>)
   = Inl (Error msg_no_base64)"
  by code_simp

section \<open>Facts about the handler\<close>

lemma step_catch: "step (onImageChange_catch e s) = Upload"
  by (simp add: onImageChange_catch_def)

lemma requests_catch: "requests (onImageChange_catch e s) = requests s"
  by (simp add: onImageChange_catch_def)

lemma score_catch: "score (onImageChange_catch e s) = score s"
    "analysis (onImageChange_catch e s) = analysis s"
  by (simp_all add: onImageChange_catch_def)

lemma analyzeImage_Inr_iff:
  "(\<exists>a. fst (analyzeImage w d s) = Inr a) \<longleftrightarrow>
     (\<exists>t a. generateContent w d = ResponseText t \<and> processGeminiResponse t = Inr a)"
  by (auto simp: analyzeImage_def Let_def split: api_outcome.splits sum.splits)

lemma analyzeImage_Inl_keeps:
  "analyzeImage w d s = (Inl e, s') \<Longrightarrow> score s' = score s \<and> analysis s' = analysis s"
  by (auto simp: analyzeImage_def Let_def split: api_outcome.splits sum.splits)

lemma onImageChange_step:
  "step (onImageChange w (Some f) s) =
     (if \<exists>d t a. getImageData (Some f) = Inr d \<and> generateContent w d = ResponseText t \<and>
                   processGeminiResponse t = Inr a
      then Result else Upload)"
proof (cases "getImageData (Some f)")
  case (Inl e)
  then show ?thesis by (simp add: onImageChange_def step_catch)
next
  case (Inr d)
  obtain r s' where a: "analyzeImage w d (s\<lparr>image_url := Some (createObjectURL w f), step := Analyzing,
          currentMessageIndex := ticks w mod 3, score := None, analysis := None\<rparr>) = (r, s')"
    by (cases "analyzeImage w d (s\<lparr>image_url := Some (createObjectURL w f), step := Analyzing,
          currentMessageIndex := ticks w mod 3, score := None, analysis := None\<rparr>)")
  show ?thesis
  proof (cases r)
    case (Inl e)
    with a analyzeImage_Inr_iff [of w d] have "\<not> (\<exists>t a. generateContent w d = ResponseText t \<and> processGeminiResponse t = Inr a)"
      by (metis fst_conv sum.distinct(1))
    with Inr Inl a show ?thesis by (simp add: onImageChange_def step_catch)
  next
    case r: (Inr v)
    with a analyzeImage_Inr_iff [of w d] have "\<exists>t a. generateContent w d = ResponseText t \<and> processGeminiResponse t = Inr a"
      by (metis fst_conv)
    with Inr r a show ?thesis by (simp add: onImageChange_def)
  qed
qed

lemma onImageChange_failed_clears:
  assumes "step (onImageChange w (Some f) s) = Upload"
  shows "score (onImageChange w (Some f) s) = None \<and> analysis (onImageChange w (Some f) s) = None"
proof (cases "getImageData (Some f)")
  case (Inl e)
  then show ?thesis by (simp add: onImageChange_def score_catch)
next
  case (Inr d)
  let ?s1 = "s\<lparr>image_url := Some (createObjectURL w f), step := Analyzing,
          currentMessageIndex := ticks w mod 3, score := None, analysis := None\<rparr>"
  obtain r s' where a: "analyzeImage w d ?s1 = (r, s')"
    by (cases "analyzeImage w d ?s1")
  show ?thesis
  proof (cases r)
    case (Inl e)
    with a analyzeImage_Inl_keeps [of w d ?s1 e s'] Inr show ?thesis
      by (simp add: onImageChange_def score_catch)
  next
    case r: (Inr v)
    with Inr a assms show ?thesis by (simp add: onImageChange_def)
  qed
qed

lemma onImageChange_invalid_requests:
  assumes "getImageData file0 = Inl e"
  shows "requests (onImageChange w file0 s) = requests s"
  using assms by (cases file0) (simp_all add: onImageChange_def requests_catch)

lemma getImageData_invalid:
  assumes "file0 = None \<or> (\<exists>f. file0 = Some f \<and> \<not> startsWith (file_type f) (str ''image/''))"
  shows "getImageData file0 = Inl (Error msg_invalid_file)"
  using assms by (auto simp: getImageData_def)

text \<open>The example session, evaluated.\<close>

lemma example_reply_accepted: "processGeminiResponse example_reply = Inr example_analysis"
  by code_simp

lemma example_score: "getProp example_analysis (str ''score'') = Some (JNumber 85)"
  by code_simp

lemma example_payload: "getImageData (Some example_file) = Inr (str ''/9j/'')"
  by code_simp

lemma refusal_rejected:
  "processGeminiResponse (str ''Sorry, I am unable to identify a samosa'') = Inl (Error msg_no_samosa)"
  by code_simp

lemma example_cycle:
  "onImageChange example_env (Some example_file) initial_state =
     \<lparr>image_url = Some (str ''blob:samosa''), step = Result, currentMessageIndex = 2,
      score = Some (JNumber 85), analysis = Some example_analysis,
      alerts = [], requests = [str ''/9j/'']\<rparr>"
  by (simp add: onImageChange_def analyzeImage_def example_payload example_env_def
      example_reply_accepted example_score initial_state_def)

lemma refusing_cycle_step: "step (onImageChange refusing_env (Some f) s) = Upload"
proof -
  have "\<not> (\<exists>d t a. getImageData (Some f) = Inr d \<and> generateContent refusing_env d = ResponseText t \<and>
              processGeminiResponse t = Inr a)"
    by (auto simp: refusing_env_def refusal_rejected)
  then show ?thesis by (simp only: onImageChange_step if_False)
qed

section \<open>The claims\<close>

text \<open>
  C1. A reply that has, in any mix of upper and lower case, the word \<^verbatim>\<open>sorry\<close> or the
  words \<^verbatim>\<open>unable to\<close> somewhere in it is rejected with the error "No samosa detected
  ..." (the spec's NoSubjectDetectedError), whatever else the reply holds: the test for
  a refusal comes first, and neither the extraction, nor the parse, nor the shape check
  has a say. The occurrence is the piece \<open>w\<close> between \<open>pre\<close> and \<open>post\<close>.
\<close>

theorem refusal_first:
  assumes "responseText = pre @ w @ post"
    and "toLowerCase w = str ''sorry'' \<or> toLowerCase w = str ''unable to''"
  shows "processGeminiResponse responseText = Inl (Error msg_no_samosa)"
proof -
  have "toLowerCase responseText = toLowerCase pre @ toLowerCase w @ toLowerCase post"
    by (simp add: assms(1) toLowerCase_append)
  then have "js_includes (toLowerCase responseText) (toLowerCase w)"
    unfolding js_includes_iff by blast
  with assms(2) have "processGeminiResponse_try responseText = Inl (Error msg_no_samosa)"
    by (auto simp: processGeminiResponse_try_def)
  then show ?thesis
    by (simp add: processGeminiResponse_def catch_no_samosa)
qed

text \<open>
  The refusal of the spec's example, followed by a complete and well-shaped JSON object:
  rejected all the same.
\<close>

theorem refusal_first_witness:
  "processGeminiResponse
     (str ''Sorry, I am unable to identify a samosa {\"score\": 85, \"corners\": [{\"name\":\"Top\",\"angle\":60,\"comment\":\"Crispy\"}]}'')
   = Inl (Error msg_no_samosa)"
  using refusal_first [of _ "[]" "str ''Sorry''"
      "str '', I am unable to identify a samosa {\"score\": 85, \"corners\": [{\"name\":\"Top\",\"angle\":60,\"comment\":\"Crispy\"}]}''"]
  by (simp add: str_def toLowerCase_def toLowerCase_unit_def)

text \<open>
  C2, as amended. A record that \<^verbatim>\<open>processGeminiResponse\<close> returns is an object whose
  \<^verbatim>\<open>score\<close> and whose \<^verbatim>\<open>corners\<close> are both there and truthy (neither \<^verbatim>\<open>null\<close>, nor
  \<^verbatim>\<open>false\<close>, nor zero, nor the empty string); a record that misses one of the two is
  rejected, never returned. Nothing more is asked of \<^verbatim>\<open>corners\<close>: it may be an empty
  array.
\<close>

theorem returned_record_fields:
  assumes "processGeminiResponse t = Inr r"
  shows "\<exists>ps sc cs. r = JObject ps \<and>
           getProp r (str ''score'') = Some sc \<and> truthy sc \<and>
           getProp r (str ''corners'') = Some cs \<and> truthy cs"
proof -
  from assms have t: "processGeminiResponse_try t = Inr r"
    by (simp add: processGeminiResponse_def split: sum.splits)
  then have "truthy_opt (getProp r (str ''score''))" and "truthy_opt (getProp r (str ''corners''))"
    by (auto simp: processGeminiResponse_try_def split: if_splits option.splits sum.splits)
  then obtain sc cs where f: "getProp r (str ''score'') = Some sc" "truthy sc"
      "getProp r (str ''corners'') = Some cs" "truthy cs"
    by (auto simp: truthy_opt_def split: option.splits)
  then obtain ps where "r = JObject ps"
    by (cases r) auto
  with f show ?thesis by blast
qed

text \<open>A returned record whose \<^verbatim>\<open>corners\<close> is a string, not a sequence at all.\<close>

theorem returned_record_fields_witness:
  "processGeminiResponse (str ''{\"score\": 7, \"corners\": \"none\"}'')
     = Inr (JObject [(str ''score'', JNumber 7), (str ''corners'', JString (str ''none''))])
   \<and> (\<exists>ps sc cs.
         JObject [(str ''score'', JNumber 7), (str ''corners'', JString (str ''none''))] = JObject ps \<and>
         getProp (JObject [(str ''score'', JNumber 7), (str ''corners'', JString (str ''none''))])
           (str ''score'') = Some sc \<and> truthy sc \<and>
         getProp (JObject [(str ''score'', JNumber 7), (str ''corners'', JString (str ''none''))])
           (str ''corners'') = Some cs \<and> truthy cs)"
proof -
  have e: "processGeminiResponse (str ''{\"score\": 7, \"corners\": \"none\"}'')
     = Inr (JObject [(str ''score'', JNumber 7), (str ''corners'', JString (str ''none''))])"
    by code_simp
  from e returned_record_fields [OF e] show ?thesis by blast
qed

text \<open>
  C2 as stated fails: a reply with an empty \<^verbatim>\<open>corners\<close> array is accepted, and the
  record returned has no corner observation.
\<close>

theorem empty_corners_counterexample:
  "processGeminiResponse (str ''{\"score\": 85, \"corners\": []}'')
   = Inr (JObject [(str ''score'', JNumber 85), (str ''corners'', JArray [])])"
  by code_simp

text \<open>
  C3, as amended. The button "Analyze Another Samosa" sets the step to \<^verbatim>\<open>upload\<close> and
  nothing else: the score and the analysis record stay stored as they were (the upload
  view does not show them). They are cleared by the next file selection; when that
  cycle fails, the session is back in \<^verbatim>\<open>upload\<close> with neither of them.
\<close>

theorem analyze_another:
  "step (onClick_analyzeAnother s) = Upload
   \<and> score (onClick_analyzeAnother s) = score s
   \<and> analysis (onClick_analyzeAnother s) = analysis s
   \<and> (\<forall>w f. step (onImageChange w (Some f) (onClick_analyzeAnother s)) = Upload \<longrightarrow>
         score (onImageChange w (Some f) (onClick_analyzeAnother s)) = None \<and>
         analysis (onImageChange w (Some f) (onClick_analyzeAnother s)) = None)"
  using onImageChange_failed_clears by (simp add: onClick_analyzeAnother_def)

text \<open>
  After a successful analysis and the button, a second file whose analysis the model
  refuses: the session is in \<^verbatim>\<open>upload\<close>, the score and the record are gone.
\<close>

theorem analyze_another_witness:
  "step (onImageChange refusing_env (Some example_file)
           (onClick_analyzeAnother (onImageChange example_env (Some example_file) initial_state))) = Upload
   \<and> score (onImageChange refusing_env (Some example_file)
           (onClick_analyzeAnother (onImageChange example_env (Some example_file) initial_state))) = None
   \<and> analysis (onImageChange refusing_env (Some example_file)
           (onClick_analyzeAnother (onImageChange example_env (Some example_file) initial_state))) = None"
  using analyze_another [of "onImageChange example_env (Some example_file) initial_state"]
    refusing_cycle_step by blast

text \<open>
  C3 as stated fails: after a successful analysis of the example file the button leaves
  the score 85 and the record in the state.
\<close>

theorem analyze_another_counterexample:
  "step (onImageChange example_env (Some example_file) initial_state) = Result
   \<and> step (onClick_analyzeAnother (onImageChange example_env (Some example_file) initial_state)) = Upload
   \<and> score (onClick_analyzeAnother (onImageChange example_env (Some example_file) initial_state))
       = Some (JNumber 85)
   \<and> analysis (onClick_analyzeAnother (onImageChange example_env (Some example_file) initial_state))
       = Some example_analysis"
  by (simp add: example_cycle onClick_analyzeAnother_def)

text \<open>
  C4, as amended. Of a reply that is no refusal: when no \<^verbatim>\<open>{\<close> of the text has a
  \<^verbatim>\<open>}\<close> after it, the error is "Could not get a proper analysis ..."; when a braced
  span is found and \<^verbatim>\<open>JSON.parse\<close> fails on it, the error is "Could not analyze the
  image properly ...". Both are the spec's NoStructuredPayloadError, an unusable reply,
  but the two messages differ, and the message is what the caller shows to the user.
\<close>

theorem unusable_reply:
  assumes "\<not> js_includes (toLowerCase t) (str ''sorry'')"
    and "\<not> js_includes (toLowerCase t) (str ''unable to'')"
  shows "(\<not> (\<exists>i j. i < j \<and> j < length t \<and> t ! i = ch CHR ''{'' \<and> t ! j = ch CHR ''}'')
            \<longrightarrow> processGeminiResponse t = Inl (Error msg_no_json))
       \<and> (\<forall>m e. jsonRegex_match t = Some m \<and> JSON_parse m = Inl e
            \<longrightarrow> processGeminiResponse t = Inl (Error msg_json_error))
       \<and> msg_no_json \<noteq> msg_json_error"
proof (intro conjI impI allI)
  assume "\<not> (\<exists>i j. i < j \<and> j < length t \<and> t ! i = ch CHR ''{'' \<and> t ! j = ch CHR ''}'')"
  then have "jsonRegex_match t = None"
    by (simp only: jsonRegex_match_None_iff not_False_eq_True)
  from try_no_match [OF assms this] show "processGeminiResponse t = Inl (Error msg_no_json)"
    by (simp add: processGeminiResponse_def catch_no_json)
next
  fix m e
  assume a: "jsonRegex_match t = Some m \<and> JSON_parse m = Inl e"
  then have "JSON_parse m = Inl JSON_SyntaxError"
    using JSON_parse_error by blast
  with try_after_parse [OF assms, of m] a
  show "processGeminiResponse t = Inl (Error msg_json_error)"
    by (simp add: processGeminiResponse_def catch_SyntaxError)
next
  show "msg_no_json \<noteq> msg_json_error"
    by (simp add: msg_no_json_def msg_json_error_def str_def)
qed

text \<open>A reply without braces, and a reply whose braced span has a trailing comma.\<close>

theorem unusable_reply_witness:
  "processGeminiResponse (str ''The pastry is golden.'') = Inl (Error msg_no_json)
   \<and> processGeminiResponse (str ''{\"score\": 85,}'') = Inl (Error msg_json_error)"
proof -
  let ?a = "str ''The pastry is golden.''"
  let ?b = "str ''{\"score\": 85,}''"
  have a1: "\<not> js_includes (toLowerCase ?a) (str ''sorry'')" by code_simp
  have a2: "\<not> js_includes (toLowerCase ?a) (str ''unable to'')" by code_simp
  have "jsonRegex_match ?a = None" by code_simp
  then have a3: "\<not> (\<exists>i j. i < j \<and> j < length ?a \<and> ?a ! i = ch CHR ''{'' \<and> ?a ! j = ch CHR ''}'')"
    by (simp only: jsonRegex_match_None_iff not_False_eq_True)
  have b1: "\<not> js_includes (toLowerCase ?b) (str ''sorry'')" by code_simp
  have b2: "\<not> js_includes (toLowerCase ?b) (str ''unable to'')" by code_simp
  have b3: "jsonRegex_match ?b = Some ?b" by code_simp
  have b4: "JSON_parse ?b = Inl JSON_SyntaxError" by code_simp
  from unusable_reply [OF a1 a2] a3 have "processGeminiResponse ?a = Inl (Error msg_no_json)"
    by blast
  moreover from unusable_reply [OF b1 b2] b3 b4
  have "processGeminiResponse ?b = Inl (Error msg_json_error)"
    by blast
  ultimately show ?thesis by blast
qed

text \<open>
  C4 as stated fails: the spec's example without braces and a reply whose span is not
  JSON are rejected with different errors, so the caller can tell the two cases apart.
\<close>

theorem unusable_reply_counterexample:
  "processGeminiResponse (str ''I see a triangular pastry but cannot quantify it.'')
     = Inl (Error msg_no_json)
   \<and> processGeminiResponse (str ''The analysis is {score: 85}.'') = Inl (Error msg_json_error)
   \<and> processGeminiResponse (str ''I see a triangular pastry but cannot quantify it.'')
     \<noteq> processGeminiResponse (str ''The analysis is {score: 85}.'')"
proof -
  have a: "processGeminiResponse (str ''I see a triangular pastry but cannot quantify it.'')
     = Inl (Error msg_no_json)"
    by code_simp
  have b: "processGeminiResponse (str ''The analysis is {score: 85}.'') = Inl (Error msg_json_error)"
    by code_simp
  have "msg_no_json \<noteq> msg_json_error"
    by (simp add: msg_no_json_def msg_json_error_def str_def)
  with a b show ?thesis by simp
qed

text \<open>
  C5. Of a reply that is no refusal: when the braced span parses and the value lacks a
  truthy \<^verbatim>\<open>score\<close> or a truthy \<^verbatim>\<open>corners\<close>, the error is "Invalid analysis format
  ..." (the spec's InvalidAnalysisShapeError). So it is for the spec's example, a record
  with corners and no score. (The shape check is the fourth step: a reply with a
  refusal marker never reaches it, see C1.)
\<close>

theorem shape_check:
  "(\<forall>t m v.
      \<not> js_includes (toLowerCase t) (str ''sorry'') \<and>
      \<not> js_includes (toLowerCase t) (str ''unable to'') \<and>
      jsonRegex_match t = Some m \<and> JSON_parse m = Inr v \<and>
      (\<not> truthy_opt (getProp v (str ''score'')) \<or> \<not> truthy_opt (getProp v (str ''corners'')))
      \<longrightarrow> processGeminiResponse t = Inl (Error msg_invalid_format))
   \<and> processGeminiResponse
        (str ''{\"corners\": [{\"name\":\"Top\",\"angle\":60,\"comment\":\"Crispy\"}]}'')
      = Inl (Error msg_invalid_format)"
proof (intro conjI allI impI)
  fix t m v
  assume a: "\<not> js_includes (toLowerCase t) (str ''sorry'') \<and>
      \<not> js_includes (toLowerCase t) (str ''unable to'') \<and>
      jsonRegex_match t = Some m \<and> JSON_parse m = Inr v \<and>
      (\<not> truthy_opt (getProp v (str ''score'')) \<or> \<not> truthy_opt (getProp v (str ''corners'')))"
  then have "processGeminiResponse_try t = Inl (Error msg_invalid_format)"
    using try_after_parse [of t m] by auto
  then show "processGeminiResponse t = Inl (Error msg_invalid_format)"
    by (simp add: processGeminiResponse_def catch_invalid_format)
next
  show "processGeminiResponse
        (str ''{\"corners\": [{\"name\":\"Top\",\"angle\":60,\"comment\":\"Crispy\"}]}'')
      = Inl (Error msg_invalid_format)"
    by code_simp
qed

text \<open>A record whose \<^verbatim>\<open>corners\<close> is \<^verbatim>\<open>null\<close>.\<close>

theorem shape_check_witness:
  "processGeminiResponse (str ''{\"score\": 85, \"corners\": null}'') = Inl (Error msg_invalid_format)"
proof -
  let ?t = "str ''{\"score\": 85, \"corners\": null}''"
  let ?v = "JObject [(str ''score'', JNumber 85), (str ''corners'', JNull)]"
  have 1: "\<not> js_includes (toLowerCase ?t) (str ''sorry'')" by code_simp
  have 2: "\<not> js_includes (toLowerCase ?t) (str ''unable to'')" by code_simp
  have 3: "jsonRegex_match ?t = Some ?t" by code_simp
  have 4: "JSON_parse ?t = Inr ?v" by code_simp
  have 5: "\<not> truthy_opt (getProp ?v (str ''corners''))" by code_simp
  from shape_check 1 2 3 4 5 show ?thesis by blast
qed

text \<open>
  C6. The reply \<^verbatim>\<open>Here you go: {"score": 85, "corners": [{"name":"Top","angle":60,"comment":"Crispy"}]}\<close>
  is accepted, and the record returned has the score 85 and the one corner with the name
  Top, the angle 60 and the comment Crispy.
\<close>

theorem example_record:
  "processGeminiResponse
     (str ''Here you go: {\"score\": 85, \"corners\": [{\"name\":\"Top\",\"angle\":60,\"comment\":\"Crispy\"}]}'')
   = Inr (JObject
       [(str ''score'', JNumber 85),
        (str ''corners'',
         JArray [JObject [(str ''name'', JString (str ''Top'')), (str ''angle'', JNumber 60),
                          (str ''comment'', JString (str ''Crispy''))]])])"
  by code_simp

text \<open>
  C7. When the file is absent, or its declared media type does not start with
  \<^verbatim>\<open>image/\<close>, \<^verbatim>\<open>getImageData\<close> fails with "Invalid file type ..." (the spec's
  InvalidInputError), and the handler sends no request to the model: the requests of the
  session are those it had before.
\<close>

theorem invalid_input_before_request:
  assumes "file0 = None \<or> (\<exists>f. file0 = Some f \<and> \<not> startsWith (file_type f) (str ''image/''))"
  shows "getImageData file0 = Inl (Error msg_invalid_file)
       \<and> requests (onImageChange w file0 s) = requests s"
  using getImageData_invalid [OF assms] onImageChange_invalid_requests by simp

text \<open>A text file, and no file at all, in a fresh session.\<close>

theorem invalid_input_before_request_witness:
  "getImageData (Some text_file) = Inl (Error msg_invalid_file)
   \<and> requests (onImageChange example_env (Some text_file) initial_state) = []
   \<and> getImageData None = Inl (Error msg_invalid_file)
   \<and> requests (onImageChange example_env None initial_state) = []"
proof -
  have "\<not> startsWith (file_type text_file) (str ''image/'')" by code_simp
  then have 1: "Some text_file = None \<or>
      (\<exists>f. Some text_file = Some f \<and> \<not> startsWith (file_type f) (str ''image/''))"
    by simp
  have 2: "(None :: jsfile option) = None \<or>
      (\<exists>f. None = Some f \<and> \<not> startsWith (file_type f) (str ''image/''))"
    by simp
  have 3: "requests initial_state = []" by (simp add: initial_state_def)
  from invalid_input_before_request [OF 1, of example_env initial_state]
    invalid_input_before_request [OF 2, of example_env initial_state] 3
  show ?thesis by simp
qed

text \<open>
  C8. When a file has been selected and the awaited calls have ended, the step is never
  \<^verbatim>\<open>analyzing\<close>: it is \<^verbatim>\<open>result\<close> exactly when the encoding succeeded, the model
  answered with a text and the text was accepted, and \<^verbatim>\<open>upload\<close> in every other case.
  This holds from every state, the upload state among them.
\<close>

theorem cycle_ends:
  "step (onImageChange w (Some f) s) \<noteq> Analyzing
   \<and> (step (onImageChange w (Some f) s) = Result \<longleftrightarrow>
        (\<exists>d t a. getImageData (Some f) = Inr d \<and> generateContent w d = ResponseText t \<and>
                  processGeminiResponse t = Inr a))
   \<and> (step (onImageChange w (Some f) s) = Upload \<longleftrightarrow>
        \<not> (\<exists>d t a. getImageData (Some f) = Inr d \<and> generateContent w d = ResponseText t \<and>
                    processGeminiResponse t = Inr a))"
  by (simp add: onImageChange_step)

text \<open>One cycle that succeeds and one that the model refuses, both from a fresh session.\<close>

theorem cycle_ends_witness:
  "step (onImageChange example_env (Some example_file) initial_state) = Result
   \<and> step (onImageChange refusing_env (Some example_file) initial_state) = Upload"
proof -
  have "generateContent example_env (str ''/9j/'') = ResponseText example_reply"
    by (simp add: example_env_def)
  with example_payload example_reply_accepted
  have "\<exists>d t a. getImageData (Some example_file) = Inr d \<and>
          generateContent example_env d = ResponseText t \<and> processGeminiResponse t = Inr a"
    by blast
  with cycle_ends [of example_env example_file initial_state]
  have 1: "step (onImageChange example_env (Some example_file) initial_state) = Result"
    by blast
  have "\<not> (\<exists>d t a. getImageData (Some example_file) = Inr d \<and>
          generateContent refusing_env d = ResponseText t \<and> processGeminiResponse t = Inr a)"
    by (auto simp: refusing_env_def refusal_rejected)
  with cycle_ends [of refusing_env example_file initial_state]
  have 2: "step (onImageChange refusing_env (Some example_file) initial_state) = Upload"
    by blast
  from 1 2 show ?thesis by blast
qed

text \<open>
  C9. For an image file (a media type that starts with \<^verbatim>\<open>image/\<close> and, as every media
  type, has no comma in it): whenever \<^verbatim>\<open>getImageData\<close> gives a payload, decoding the
  payload gives back the bytes of the file exactly; and it does give a payload when the
  file can be read and has at least one byte.
\<close>

theorem encode_roundtrip:
  assumes "startsWith (file_type f) (str ''image/'')" and "ch CHR '','' \<notin> set (file_type f)"
  shows "(\<forall>p. getImageData (Some f) = Inr p \<longrightarrow> base64_decode p = Some (file_bytes f))
       \<and> (file_readable f \<and> file_bytes f \<noteq> [] \<longrightarrow>
            (\<exists>p. getImageData (Some f) = Inr p \<and> base64_decode p = Some (file_bytes f)))"
proof (intro conjI allI impI)
  fix p
  assume "getImageData (Some f) = Inr p"
  with assms have "p = base64_encode (file_bytes f)"
    by (simp add: getImageData_def readAsDataURL_split index_js_def del: of_char_Char
        split: if_splits)
  with base64_roundtrip show "base64_decode p = Some (file_bytes f)"
    by simp
next
  assume "file_readable f \<and> file_bytes f \<noteq> []"
  with getImageData_payload [OF assms] base64_roundtrip
  show "\<exists>p. getImageData (Some f) = Inr p \<and> base64_decode p = Some (file_bytes f)"
    by blast
qed

text \<open>The first five bytes of a JPEG file.\<close>

theorem encode_roundtrip_witness:
  "getImageData (Some \<lparr>file_type = str ''image/jpeg'', file_bytes = [255, 216, 255, 224, 0],
                       file_readable = True\<rparr>) = Inr (str ''/9j/4AA='')
   \<and> base64_decode (str ''/9j/4AA='') = Some [255, 216, 255, 224, 0]"
proof -
  let ?f = "\<lparr>file_type = str ''image/jpeg'', file_bytes = [255, 216, 255, 224, 0 :: byte],
             file_readable = True\<rparr>"
  have 1: "startsWith (file_type ?f) (str ''image/'')" by code_simp
  have 2: "ch CHR '','' \<notin> set (file_type ?f)" by code_simp
  have 3: "file_readable ?f \<and> file_bytes ?f \<noteq> []" by simp
  have 4: "getImageData (Some ?f) = Inr (str ''/9j/4AA='')" by code_simp
  from encode_roundtrip [OF 1 2] 3 4 show ?thesis by auto
qed

text \<open>
  C10. Of a reply that is no refusal: when the braced span parses to a record whose
  \<^verbatim>\<open>score\<close> is the number 0 and whose \<^verbatim>\<open>corners\<close> is there, the reply is rejected
  with "Invalid analysis format ...", since 0 is falsy.
\<close>

theorem zero_score_rejected:
  assumes "\<not> js_includes (toLowerCase t) (str ''sorry'')"
    and "\<not> js_includes (toLowerCase t) (str ''unable to'')"
    and "jsonRegex_match t = Some m"
    and "JSON_parse m = Inr v"
    and "getProp v (str ''score'') = Some (JNumber 0)"
    and "getProp v (str ''corners'') = Some cs"
  shows "processGeminiResponse t = Inl (Error msg_invalid_format)"
proof -
  have "\<not> truthy_opt (getProp v (str ''score''))"
    by (simp add: assms(5) truthy_opt_def double_is_zero_0)
  with try_after_parse [OF assms(1-3)] assms(4)
  have "processGeminiResponse_try t = Inl (Error msg_invalid_format)"
    by simp
  then show ?thesis
    by (simp add: processGeminiResponse_def catch_invalid_format)
qed

text \<open>A reply with the score 0 and one corner.\<close>

theorem zero_score_rejected_witness:
  "processGeminiResponse
     (str ''Result: {\"score\": 0, \"corners\": [{\"name\":\"Top\",\"angle\":60,\"comment\":\"Soft\"}]}'')
   = Inl (Error msg_invalid_format)"
proof -
  let ?t = "str ''Result: {\"score\": 0, \"corners\": [{\"name\":\"Top\",\"angle\":60,\"comment\":\"Soft\"}]}''"
  let ?m = "str ''{\"score\": 0, \"corners\": [{\"name\":\"Top\",\"angle\":60,\"comment\":\"Soft\"}]}''"
  let ?cs = "JArray [JObject [(str ''name'', JString (str ''Top'')), (str ''angle'', JNumber 60),
                              (str ''comment'', JString (str ''Soft''))]]"
  let ?v = "JObject [(str ''score'', JNumber 0), (str ''corners'', ?cs)]"
  have 1: "\<not> js_includes (toLowerCase ?t) (str ''sorry'')" by code_simp
  have 2: "\<not> js_includes (toLowerCase ?t) (str ''unable to'')" by code_simp
  have 3: "jsonRegex_match ?t = Some ?m" by code_simp
  have 4: "JSON_parse ?m = Inr ?v" by code_simp
  have 5: "getProp ?v (str ''score'') = Some (JNumber 0)" by code_simp
  have 6: "getProp ?v (str ''corners'') = Some ?cs" by code_simp
  from zero_score_rejected [OF 1 2 3 4 5 6] show ?thesis .
qed

end
